theory Spec2Isabelle
  imports Complex_Main "HOL-Library.Sublist"
begin

section \<open>Reward functions and pipeline of \<^verbatim>\<open>src/open_r1/grpo.py\<close>\<close>

text \<open>
  The script holds two reward functions, a registry of them, a system prompt, and a
  \<^verbatim>\<open>main\<close> that calls library operations in sequence. The model keeps the
  names of the source. Python strings are \<open>string\<close>; a dictionary is a map; a
  \<^verbatim>\<open>float\<close> that is only ever \<^verbatim>\<open>0.0\<close> or \<^verbatim>\<open>1.0\<close> is a \<open>real\<close>; an
  exception is the \<open>Inl\<close> branch of a sum; printing appends to the \<open>stdout\<close> field of
  an explicit \<open>world\<close>.
\<close>

subsection \<open>Values, errors and the output stream\<close>

text \<open>
  The exceptions the script can raise itself are \<^verbatim>\<open>IndexError\<close> (an empty list indexed
  at 0) and \<^verbatim>\<open>KeyError\<close> (a dictionary indexed at a missing key, which the error
  carries). \<open>LibraryError\<close> stands for whatever an external library call raises.
  \<^verbatim>\<open>TypeError\<close> is raised by an operation on an object of the wrong kind; it arises only
  where the arguments are modelled as objects of any kind, in the last part of the
  definitions.
\<close>

datatype error = IndexError | KeyError string | LibraryError string | TypeError

text \<open>A chat message is a dictionary with string keys (\<^verbatim>\<open>"role"\<close>, \<^verbatim>\<open>"content"\<close>).\<close>

type_synonym 'v message = "string \<rightharpoonup> 'v"

type_synonym completion = "string message list"

record world =
  stdout :: string

abbreviation newline :: char where
  "newline \<equiv> CHR 0x0A"

text \<open>
  A list comprehension whose element expression can raise: the first exception leaves the
  comprehension, and no list is built.
\<close>

fun comprehension :: "('a \<Rightarrow> error + 'b) \<Rightarrow> 'a list \<Rightarrow> error + 'b list" where
  "comprehension f [] = Inr []"
| "comprehension f (x # xs) =
     (case f x of
        Inl e \<Rightarrow> Inl e
      | Inr y \<Rightarrow> (case comprehension f xs of Inl e \<Rightarrow> Inl e | Inr ys \<Rightarrow> Inr (y # ys)))"

text \<open>\<^verbatim>\<open>d[k]\<close> on a dictionary: the value, or \<^verbatim>\<open>KeyError\<close> when the key is missing.\<close>

definition getitem :: "(string \<rightharpoonup> 'v) \<Rightarrow> string \<Rightarrow> error + 'v" where
  "getitem d k = (case d k of None \<Rightarrow> Inl (KeyError k) | Some v \<Rightarrow> Inr v)"

text \<open>
  \<^verbatim>\<open>completion[0]["content"]\<close>: indexing an empty list raises \<^verbatim>\<open>IndexError\<close>, a
  message without the key raises \<^verbatim>\<open>KeyError\<close>.
\<close>

definition first_content :: "completion \<Rightarrow> error + string" where
  "first_content completion =
     (case completion of
        [] \<Rightarrow> Inl IndexError
      | m # _ \<Rightarrow> getitem m ''content'')"

text \<open>
  \<^verbatim>\<open>print(*args)\<close> writes the arguments separated by one space and ends the line.
\<close>

fun joined :: "string list \<Rightarrow> string" where
  "joined [] = []"
| "joined [a] = a"
| "joined (a # b # rest) = a @ '' '' @ joined (b # rest)"

definition print :: "string list \<Rightarrow> world \<Rightarrow> world" where
  "print args w = w\<lparr>stdout := stdout w @ joined args @ [newline]\<rparr>"

subsection \<open>The regular expression of \<^verbatim>\<open>format_reward\<close>\<close>

text \<open>
  The pattern \<^verbatim>\<open>^<think>.*?</think><answer>.*?</answer>$\<close> uses four constructs of
  Python's \<^verbatim>\<open>re\<close>, compiled with no flag: \<^verbatim>\<open>^\<close> (start of the string), \<^verbatim>\<open>$\<close>
  (end of the string, or just before a newline that ends the string), a literal
  character, and \<^verbatim>\<open>.*?\<close> (as few characters as possible, none of them a newline).
  \<open>re_run\<close> is the backtracking search of the library on these constructs: it returns the
  end position of the first match it finds, as a match object holds it, or \<open>None\<close>.
  A character of the model is a byte of the UTF-8 text; no byte of a multi-byte code
  point is \<open>0x0A\<close>, so matching bytes and matching code points agree on whether the
  pattern matches.
\<close>

datatype rx = Bol | Eol | Lit char | Any_lazy

fun re_run :: "rx list \<Rightarrow> nat \<Rightarrow> string \<Rightarrow> nat option" where
  "re_run [] pos s = Some pos"
| "re_run (Bol # rs) pos s = (if pos = 0 then re_run rs pos s else None)"
| "re_run (Eol # rs) pos s = (if s = [] \<or> s = [newline] then re_run rs pos s else None)"
| "re_run (Lit c # rs) pos [] = None"
| "re_run (Lit c # rs) pos (x # xs) = (if x = c then re_run rs (Suc pos) xs else None)"
| "re_run (Any_lazy # rs) pos [] = re_run rs pos []"
| "re_run (Any_lazy # rs) pos (x # xs) =
     (case re_run rs pos (x # xs) of
        Some e \<Rightarrow> Some e
      | None \<Rightarrow> if x \<noteq> newline then re_run (Any_lazy # rs) (Suc pos) xs else None)"

text \<open>\<^verbatim>\<open>re.match\<close> tries the pattern at position 0 only.\<close>

definition re_match :: "rx list \<Rightarrow> string \<Rightarrow> nat option" where
  "re_match pattern s = re_run pattern 0 s"

definition format_pattern :: "rx list" where
  "format_pattern =
     Bol # map Lit ''<think>'' @ Any_lazy # map Lit ''</think><answer>'' @ Any_lazy #
     map Lit ''</answer>'' @ [Eol]"

subsection \<open>\<^verbatim>\<open>format_reward\<close>\<close>

text \<open>
  \<^verbatim>\<open>
  def format_reward(completions, **kwargs):
      pattern = r"^<think>.*?</think><answer>.*?</answer>$"
      completion_contents = [completion[0]["content"] for completion in completions]
      matches = [re.match(pattern, content) for content in completion_contents]
      return [1.0 if match else 0.0 for match in matches]
  \<close>
  A match object is always true, \<^verbatim>\<open>None\<close> is false. The function has no statement that
  writes: the world it is given is the world it leaves.
\<close>

definition format_reward :: "completion list \<Rightarrow> 'kw \<Rightarrow> world \<Rightarrow> (error + real list) \<times> world" where
  "format_reward completions kwargs w =
     (let pattern = format_pattern in
      case comprehension first_content completions of
        Inl e \<Rightarrow> (Inl e, w)
      | Inr completion_contents \<Rightarrow>
          (let matches = map (re_match pattern) completion_contents
           in (Inr (map (\<lambda>match. if match \<noteq> None then 1 else 0) matches), w)))"

subsection \<open>\<^verbatim>\<open>accuracy_reward\<close>\<close>

text \<open>
  The parser and the verifier are functions of the external package
  \<^verbatim>\<open>math_verify\<close>; none of their code is in the repository. They are parameters of
  the model, \<open>parse\<close> and \<open>verify\<close>, total and without effect, over an unknown type
  \<open>'p\<close> of parsed expressions. \<open>parse\<close> receives the text, the list of extraction
  configurations and the extraction mode. A configuration records the keyword arguments the
  script passes; \<open>None\<close> is an argument left to the library's default.
\<close>

record normalization_config =
  nits :: bool
  malformed_operators :: bool
  basic_latex :: bool
  equations :: bool
  boxed :: bool
  units :: bool

record latex_extraction_config =
  normalization_config :: "normalization_config option"
  boxed_match_priority :: "int option"
  try_extract_without_anchor :: "bool option"

type_synonym 'p parser = "string \<Rightarrow> latex_extraction_config list \<Rightarrow> string \<Rightarrow> 'p list"

type_synonym 'p verifier = "'p list \<Rightarrow> 'p list \<Rightarrow> bool"

text \<open>\<^verbatim>\<open>[LatexExtractionConfig()]\<close>, the configuration of the gold parse (line 39).\<close>

definition gold_extraction_config :: "latex_extraction_config list" where
  "gold_extraction_config =
     [\<lparr>normalization_config = None, boxed_match_priority = None,
       try_extract_without_anchor = None\<rparr>]"

text \<open>The configuration of the answer parse (lines 44 to 58).\<close>

definition answer_extraction_config :: "latex_extraction_config list" where
  "answer_extraction_config =
     [\<lparr>normalization_config =
         Some \<lparr>nits = False, malformed_operators = False, basic_latex = True,
               equations = True, boxed = True, units = True\<rparr>,
       boxed_match_priority = Some 0,
       try_extract_without_anchor = Some False\<rparr>]"

text \<open>
  The body of the \<^verbatim>\<open>for content, sol in zip(contents, solution)\<close> loop, one pair per
  step; \<open>rewards\<close> is the list the loop appends to. \<^verbatim>\<open>float(True)\<close> is \<^verbatim>\<open>1.0\<close>
  and \<^verbatim>\<open>float(False)\<close> is \<^verbatim>\<open>0.0\<close>.
\<close>

fun accuracy_loop ::
  "'p parser \<Rightarrow> 'p verifier \<Rightarrow> (string \<times> string) list \<Rightarrow> real list \<Rightarrow> world \<Rightarrow> real list \<times> world"
where
  "accuracy_loop parse verify [] rewards w = (rewards, w)"
| "accuracy_loop parse verify ((content, sol) # rest) rewards w =
     (let gold_parsed = parse sol gold_extraction_config ''first_match'' in
      if length gold_parsed \<noteq> 0 then
        (let answer_parsed = parse content answer_extraction_config ''first_match'';
             reward = of_bool (verify answer_parsed gold_parsed)
         in accuracy_loop parse verify rest (rewards @ [reward]) w)
      else
        (let reward = 1;
             w' = print [''Failed to parse gold solution: '', sol] w
         in accuracy_loop parse verify rest (rewards @ [reward]) w'))"

text \<open>
  \<^verbatim>\<open>
  def accuracy_reward(completions, solution, **kwargs):
      contents = [completion[0]["content"] for completion in completions]
      rewards = []
      for content, sol in zip(contents, solution):
          ...
      return rewards
  \<close>
  The contents of all completions are read before the loop starts, so an exception of
  that comprehension comes before any output.
\<close>

definition accuracy_reward ::
  "'p parser \<Rightarrow> 'p verifier \<Rightarrow> completion list \<Rightarrow> string list \<Rightarrow> 'kw \<Rightarrow> world \<Rightarrow>
   (error + real list) \<times> world"
where
  "accuracy_reward parse verify completions solution kwargs w =
     (case comprehension first_content completions of
        Inl e \<Rightarrow> (Inl e, w)
      | Inr contents \<Rightarrow>
          (case accuracy_loop parse verify (zip contents solution) [] w of
             (rewards, w') \<Rightarrow> (Inr rewards, w')))"

subsection \<open>The registry of reward functions\<close>

text \<open>
  The registry holds function objects. The model names the two functions of the script
  by a tag, and \<open>call_reward_func\<close> says which function a tag stands for.
\<close>

datatype reward_func = Fn_accuracy_reward | Fn_format_reward

definition reward_funcs_registry :: "string \<rightharpoonup> reward_func" where
  "reward_funcs_registry =
     [''accuracy'' \<mapsto> Fn_accuracy_reward, ''format'' \<mapsto> Fn_format_reward]"

definition call_reward_func ::
  "'p parser \<Rightarrow> 'p verifier \<Rightarrow> reward_func \<Rightarrow> completion list \<Rightarrow> string list \<Rightarrow> 'kw \<Rightarrow> world \<Rightarrow>
   (error + real list) \<times> world"
where
  "call_reward_func parse verify f completions solution kwargs w =
     (case f of
        Fn_accuracy_reward \<Rightarrow> accuracy_reward parse verify completions solution kwargs w
      | Fn_format_reward \<Rightarrow> format_reward completions (solution, kwargs) w)"

text \<open>
  Line 95 of \<^verbatim>\<open>main\<close>:
  \<^verbatim>\<open>reward_funcs = [reward_funcs_registry[func] for func in reward_types]\<close>.
\<close>

definition select_reward_funcs :: "string list \<Rightarrow> error + reward_func list" where
  "select_reward_funcs reward_types = comprehension (getitem reward_funcs_registry) reward_types"

subsection \<open>The system prompt and the conversation format\<close>

definition SYSTEM_PROMPT :: string where
  "SYSTEM_PROMPT =
     ''A conversation between User and Assistant. The user asks a question, and the Assistant solves it. The assistant '' @
     ''first thinks about the reasoning process in the mind and then provides the user with the answer. The reasoning '' @
     ''process and answer are enclosed within <think> </think> and <answer> </answer> tags, respectively, i.e., '' @
     ''<think> reasoning process here </think><answer> answer here </answer>''"

text \<open>
  A column of a dataset row holds a text or a conversation (a list of messages, whose
  values are again such values). A row is a dictionary from column names to values, a
  dataset is a list of rows, and a dataset dictionary lists its splits by name, in order.
\<close>

datatype val = Str string | Chat "val message list"

type_synonym example = "string \<rightharpoonup> val"

type_synonym dataset = "example list"

type_synonym dataset_dict = "(string \<times> dataset) list"

text \<open>
  \<^verbatim>\<open>
  def make_conversation(example):
      return {
          "prompt": [
              {"role": "system", "content": SYSTEM_PROMPT},
              {"role": "user", "content": example["problem"]},
          ],
      }
  \<close>
\<close>

definition make_conversation :: "example \<Rightarrow> error + example" where
  "make_conversation example =
     (case getitem example ''problem'' of
        Inl e \<Rightarrow> Inl e
      | Inr problem \<Rightarrow>
          Inr [''prompt'' \<mapsto>
                 Chat [[''role'' \<mapsto> Str ''system'', ''content'' \<mapsto> Str SYSTEM_PROMPT],
                       [''role'' \<mapsto> Str ''user'', ''content'' \<mapsto> problem]]])"

text \<open>
  \<^verbatim>\<open>dataset.map(function)\<close> of the \<^verbatim>\<open>datasets\<close> library, on a dataset dictionary:
  every row of every split is updated with the dictionary the function returns for it
  (the columns the function returns are added, or replace columns of the same name), and
  an exception of the function leaves the call.
\<close>

definition map_row :: "(example \<Rightarrow> error + example) \<Rightarrow> example \<Rightarrow> error + example" where
  "map_row function row = (case function row of Inl e \<Rightarrow> Inl e | Inr new \<Rightarrow> Inr (row ++ new))"

definition map_split ::
  "(example \<Rightarrow> error + example) \<Rightarrow> string \<times> dataset \<Rightarrow> error + string \<times> dataset" where
  "map_split function split =
     (case comprehension (map_row function) (snd split) of
        Inl e \<Rightarrow> Inl e
      | Inr rows \<Rightarrow> Inr (fst split, rows))"

definition dataset_map :: "(example \<Rightarrow> error + example) \<Rightarrow> dataset_dict \<Rightarrow> error + dataset_dict" where
  "dataset_map function d = comprehension (map_split function) d"

subsection \<open>\<^verbatim>\<open>main\<close>\<close>

text \<open>
  \<^verbatim>\<open>main\<close> calls the libraries five times: \<^verbatim>\<open>load_dataset\<close>, \<^verbatim>\<open>dataset.map\<close>, the
  constructor \<^verbatim>\<open>GRPOTrainer\<close>, \<^verbatim>\<open>trainer.train\<close> and \<^verbatim>\<open>trainer.save_model\<close>. The
  model logs each call when it is made. What the libraries do is given by an environment:
  what \<^verbatim>\<open>load_dataset\<close> returns or raises for a name, and whether each of the three
  trainer calls raises (\<open>None\<close>: the call returns). A trainer is known by the keyword
  arguments it was built from.
\<close>

record trainer =
  model_arg :: string
  reward_funcs_arg :: "reward_func list"
  train_dataset_arg :: dataset
  eval_dataset_arg :: dataset

datatype call =
    Load_dataset string
  | Dataset_map
  | GRPOTrainer_init trainer
  | Train
  | Save_model string

record env =
  load_dataset :: "string \<Rightarrow> error + dataset_dict"
  init_raises :: "trainer \<Rightarrow> error option"
  train_raises :: "trainer \<Rightarrow> error option"
  save_model_raises :: "trainer \<Rightarrow> string \<Rightarrow> error option"

text \<open>
  \<^verbatim>\<open>
  def main(compiled_model_path, dataset_name, model_output_dir, reward_types, training_args):
      reward_funcs = [reward_funcs_registry[func] for func in reward_types]
      dataset = load_dataset(dataset_name)
      dataset = dataset.map(make_conversation)
      trainer = GRPOTrainer(
          model=compiled_model_path,
          reward_funcs=reward_funcs,
          train_dataset=dataset['train'],
          eval_dataset=dataset['test'],
      )
      trainer.train()
      trainer.save_model(model_output_dir)
  \<close>
  The result is the exception that ended the run, or \<open>()\<close>, and the log of the calls.
\<close>

definition main ::
  "env \<Rightarrow> string \<Rightarrow> string \<Rightarrow> string \<Rightarrow> string list \<Rightarrow> 'args \<Rightarrow> call list \<Rightarrow>
   (error + unit) \<times> call list"
where
  "main env compiled_model_path dataset_name model_output_dir reward_types training_args trace =
     (case select_reward_funcs reward_types of
        Inl e \<Rightarrow> (Inl e, trace)
      | Inr reward_funcs \<Rightarrow>
     (let trace1 = trace @ [Load_dataset dataset_name] in
      case load_dataset env dataset_name of
        Inl e \<Rightarrow> (Inl e, trace1)
      | Inr loaded \<Rightarrow>
     (let trace2 = trace1 @ [Dataset_map] in
      case dataset_map make_conversation loaded of
        Inl e \<Rightarrow> (Inl e, trace2)
      | Inr dataset \<Rightarrow>
     (case getitem (map_of dataset) ''train'' of
        Inl e \<Rightarrow> (Inl e, trace2)
      | Inr train \<Rightarrow>
     (case getitem (map_of dataset) ''test'' of
        Inl e \<Rightarrow> (Inl e, trace2)
      | Inr test \<Rightarrow>
     (let trainer = \<lparr>model_arg = compiled_model_path, reward_funcs_arg = reward_funcs,
                      train_dataset_arg = train, eval_dataset_arg = test\<rparr>;
          trace3 = trace2 @ [GRPOTrainer_init trainer] in
      case init_raises env trainer of
        Some e \<Rightarrow> (Inl e, trace3)
      | None \<Rightarrow>
     (let trace4 = trace3 @ [Train] in
      case train_raises env trainer of
        Some e \<Rightarrow> (Inl e, trace4)
      | None \<Rightarrow>
     (let trace5 = trace4 @ [Save_model model_output_dir] in
      case save_model_raises env trainer model_output_dir of
        Some e \<Rightarrow> (Inl e, trace5)
      | None \<Rightarrow> (Inr (), trace5)))))))))"

section \<open>Specification-level notions\<close>

text \<open>
  What the format pattern says, in words: the text is \<^verbatim>\<open><think>\<close>, a run of characters
  with no newline, \<^verbatim>\<open></think><answer>\<close>, a second such run, \<^verbatim>\<open></answer>\<close>, and then
  nothing or one final newline. This is the language of the regular expression under
  Python's rules, stated without any search.
\<close>

definition matches_format :: "string \<Rightarrow> bool" where
  "matches_format s \<longleftrightarrow>
     (\<exists>a b t. s = ''<think>'' @ a @ ''</think><answer>'' @ b @ ''</answer>'' @ t \<and>
        newline \<notin> set a \<and> newline \<notin> set b \<and> (t = [] \<or> t = [newline]))"

text \<open>
  A completion in the conversational format the trainer passes: it has a first message,
  and that message has a \<^verbatim>\<open>"content"\<close>.
\<close>

definition conversational :: "completion \<Rightarrow> bool" where
  "conversational c = (case c of [] \<Rightarrow> False | m # _ \<Rightarrow> m ''content'' \<noteq> None)"

text \<open>The text has a newline somewhere between an opening tag and a later closing tag.\<close>

definition newline_between :: "string \<Rightarrow> string \<Rightarrow> string \<Rightarrow> bool" where
  "newline_between opening closing s \<longleftrightarrow>
     (\<exists>u v x. s = u @ opening @ v @ closing @ x \<and> newline \<in> set v)"

text \<open>
  The content a conversational completion is scored on (the empty text stands in where
  the source raises; the theorems use it under \<open>conversational\<close> only).
\<close>

definition content_of :: "completion \<Rightarrow> string" where
  "content_of c = (case first_content c of Inl _ \<Rightarrow> [] | Inr s \<Rightarrow> s)"

section \<open>Sample inputs\<close>

text \<open>
  Two completions: the first follows the format; the second does not, and carries a
  second message, which the reward functions never read.
\<close>

definition sample_completions :: "completion list" where
  "sample_completions =
     [[[''role'' \<mapsto> ''assistant'', ''content'' \<mapsto> ''<think>2+2</think><answer>4</answer>'']],
      [[''role'' \<mapsto> ''assistant'', ''content'' \<mapsto> ''The answer is 4.''], Map.empty]]"

section \<open>What \<^verbatim>\<open>accuracy_reward\<close> computes for one pair, and what it prints\<close>

text \<open>
  The reward of one (content, solution) pair, stated from the two outcomes of the gold
  parse; and the line written for a solution whose gold parse is empty (the first
  argument of \<^verbatim>\<open>print\<close> ends in a space and the separator adds one).
\<close>

definition pair_reward :: "'p parser \<Rightarrow> 'p verifier \<Rightarrow> string \<Rightarrow> string \<Rightarrow> real" where
  "pair_reward parse verify content sol =
     (if parse sol gold_extraction_config ''first_match'' = [] then 1
      else if verify (parse content answer_extraction_config ''first_match'')
                     (parse sol gold_extraction_config ''first_match'')
      then 1 else 0)"

definition failure_line :: "string \<Rightarrow> string" where
  "failure_line sol = ''Failed to parse gold solution:  '' @ sol @ [newline]"

definition failure_output :: "'p parser \<Rightarrow> string list \<Rightarrow> string" where
  "failure_output parse sols =
     concat (map failure_line
       (filter (\<lambda>sol. parse sol gold_extraction_config ''first_match'' = []) sols))"

section \<open>Sample inputs for \<^verbatim>\<open>accuracy_reward\<close>\<close>

text \<open>
  A stand-in for the external parser and verifier, to run the model on concrete inputs:
  the parse of a text is the text itself, and nothing for the empty text; two parses are
  verified equal when they are the same.
\<close>

definition sample_parse :: "string parser" where
  "sample_parse text config mode = (if text = [] then [] else [text])"

definition sample_verify :: "string verifier" where
  "sample_verify answer gold = (answer = gold)"

definition sample_answers :: "completion list" where
  "sample_answers =
     [[[''role'' \<mapsto> ''assistant'', ''content'' \<mapsto> ''4'']],
      [[''role'' \<mapsto> ''assistant'', ''content'' \<mapsto> ''5'']],
      [[''role'' \<mapsto> ''assistant'', ''content'' \<mapsto> ''6'']]]"

definition sample_solution :: "string list" where
  "sample_solution = [''4'', '''', ''7'', ''8'']"

section \<open>More sample inputs for \<^verbatim>\<open>format_reward\<close>\<close>

text \<open>
  The same contents as \<open>sample_completions\<close> in different messages (another role, the
  keys in another order, no second message); and two contents with a newline, one inside
  the reasoning and one after the closing tag.
\<close>

definition sample_other_completions :: "completion list" where
  "sample_other_completions =
     [[[''content'' \<mapsto> ''<think>2+2</think><answer>4</answer>'', ''role'' \<mapsto> ''model'']],
      [[''content'' \<mapsto> ''The answer is 4.'']]]"

definition sample_multiline :: "completion list" where
  "sample_multiline =
     [[[''content'' \<mapsto> ''<think>step 1'' @ [newline] @ ''step 2</think><answer>4</answer>'']],
      [[''content'' \<mapsto> ''<think>2+2</think><answer>4</answer>'' @ [newline]]]]"

section \<open>The prompt of a problem, and a sample run of \<^verbatim>\<open>main\<close>\<close>

text \<open>
  The conversation the reformatting step is to produce for a problem: the system message
  with the system prompt, then the user message with the problem.
\<close>

definition prompt_of :: "val \<Rightarrow> val" where
  "prompt_of problem =
     Chat [[''role'' \<mapsto> Str ''system'', ''content'' \<mapsto> Str SYSTEM_PROMPT],
           [''role'' \<mapsto> Str ''user'', ''content'' \<mapsto> problem]]"

text \<open>
  A dataset with one row in each of the two splits \<^verbatim>\<open>main\<close> reads, libraries that raise
  nothing, and the trainer \<^verbatim>\<open>main\<close> builds from them with the arguments of the
  script's last lines.
\<close>

definition sample_dataset :: dataset_dict where
  "sample_dataset =
     [(''train'', [[''problem'' \<mapsto> Str ''What is 2+2?'', ''solution'' \<mapsto> Str ''4'']]),
      (''test'', [[''problem'' \<mapsto> Str ''What is 3+3?'', ''solution'' \<mapsto> Str ''6'']])]"

definition sample_env :: env where
  "sample_env =
     \<lparr>load_dataset = (\<lambda>name. if name = ''AI-MO/NuminaMath-TIR'' then Inr sample_dataset
                              else Inl (LibraryError ''dataset not found'')),
      init_raises = (\<lambda>trainer. None),
      train_raises = (\<lambda>trainer. None),
      save_model_raises = (\<lambda>trainer dir. None)\<rparr>"

definition sample_trainer :: trainer where
  "sample_trainer =
     \<lparr>model_arg = ''/home/ubuntu/models/traced_qwen'',
      reward_funcs_arg = [Fn_accuracy_reward, Fn_format_reward],
      train_dataset_arg =
        [[''problem'' \<mapsto> Str ''What is 2+2?'', ''solution'' \<mapsto> Str ''4'',
          ''prompt'' \<mapsto> prompt_of (Str ''What is 2+2?'')]],
      eval_dataset_arg =
        [[''problem'' \<mapsto> Str ''What is 3+3?'', ''solution'' \<mapsto> Str ''6'',
          ''prompt'' \<mapsto> prompt_of (Str ''What is 3+3?'')]]\<rparr>"

section \<open>The reward functions over Python objects\<close>






















section \<open>The regular expression search finds exactly the texts of the format\<close>

lemma re_run_lits:
  "re_run (map Lit l @ rs) pos s =
     (if take (length l) s = l then re_run rs (pos + length l) (drop (length l) s) else None)"
proof (induction l arbitrary: pos s)
  case Nil
  then show ?case by simp
next
  case (Cons c l)
  then show ?case by (cases s) auto
qed

lemma re_run_lits_iff:
  "re_run (map Lit l @ rs) pos s \<noteq> None \<longleftrightarrow>
     (\<exists>xs. s = l @ xs \<and> re_run rs (pos + length l) xs \<noteq> None)"
proof -
  have "take (length l) s = l \<longleftrightarrow> (\<exists>xs. s = l @ xs)"
    by (metis append_eq_conv_conj append_take_drop_id)
  then show ?thesis
    by (auto simp: re_run_lits)
qed

lemma re_run_any_lazy_iff:
  "re_run (Any_lazy # rs) pos s \<noteq> None \<longleftrightarrow>
     (\<exists>a xs. s = a @ xs \<and> newline \<notin> set a \<and> re_run rs (pos + length a) xs \<noteq> None)"
proof (induction s arbitrary: pos)
  case Nil
  then show ?case by simp
next
  case (Cons x s)
  show ?case
  proof
    assume L: "re_run (Any_lazy # rs) pos (x # s) \<noteq> None"
    show "\<exists>a xs. x # s = a @ xs \<and> newline \<notin> set a \<and> re_run rs (pos + length a) xs \<noteq> None"
    proof (cases "re_run rs pos (x # s)")
      case (Some e)
      then have "x # s = [] @ (x # s) \<and> newline \<notin> set [] \<and> re_run rs (pos + length ([]::string)) (x # s) \<noteq> None"
        by simp
      then show ?thesis by blast
    next
      case None
      with L have nx: "x \<noteq> newline" and R: "re_run (Any_lazy # rs) (Suc pos) s \<noteq> None"
        by (auto split: if_splits)
      from R Cons.IH[of "Suc pos"] obtain a xs where
        "s = a @ xs" "newline \<notin> set a" "re_run rs (Suc pos + length a) xs \<noteq> None"
        by blast
      with nx have "x # s = (x # a) @ xs \<and> newline \<notin> set (x # a) \<and> re_run rs (pos + length (x # a)) xs \<noteq> None"
        by simp
      then show ?thesis by blast
    qed
  next
    assume "\<exists>a xs. x # s = a @ xs \<and> newline \<notin> set a \<and> re_run rs (pos + length a) xs \<noteq> None"
    then obtain a xs where A: "x # s = a @ xs" "newline \<notin> set a" "re_run rs (pos + length a) xs \<noteq> None"
      by blast
    show "re_run (Any_lazy # rs) pos (x # s) \<noteq> None"
    proof (cases a)
      case Nil
      with A show ?thesis by (auto split: option.splits)
    next
      case (Cons y a')
      with A have "s = a' @ xs" "newline \<notin> set a'" "re_run rs (Suc pos + length a') xs \<noteq> None" "x \<noteq> newline"
        by auto
      then have "re_run (Any_lazy # rs) (Suc pos) s \<noteq> None"
        using Cons.IH[of "Suc pos"] by blast
      with \<open>x \<noteq> newline\<close> show ?thesis by (auto split: option.splits)
    qed
  qed
qed

lemma re_run_tagged:
  "re_run (Bol # map Lit t1 @ Any_lazy # map Lit t2 @ Any_lazy # map Lit t3 @ [Eol]) 0 s \<noteq> None \<longleftrightarrow>
     (\<exists>a b t. s = t1 @ a @ t2 @ b @ t3 @ t \<and> newline \<notin> set a \<and> newline \<notin> set b \<and>
        (t = [] \<or> t = [newline]))"
proof -
  have e: "re_run [Eol] p x \<noteq> None \<longleftrightarrow> x = [] \<or> x = [newline]" for p x
    by simp
  have "re_run (Bol # map Lit t1 @ Any_lazy # map Lit t2 @ Any_lazy # map Lit t3 @ [Eol]) 0 s \<noteq> None \<longleftrightarrow>
      (\<exists>x1. s = t1 @ x1 \<and> (\<exists>a x2. x1 = a @ x2 \<and> newline \<notin> set a \<and>
         (\<exists>x3. x2 = t2 @ x3 \<and> (\<exists>b x4. x3 = b @ x4 \<and> newline \<notin> set b \<and>
            (\<exists>t. x4 = t3 @ t \<and> (t = [] \<or> t = [newline]))))))"
    by (simp only: re_run.simps(2) simp_thms if_True re_run_lits_iff re_run_any_lazy_iff e)
  also have "\<dots> \<longleftrightarrow> (\<exists>a b t. s = t1 @ a @ t2 @ b @ t3 @ t \<and> newline \<notin> set a \<and> newline \<notin> set b \<and>
        (t = [] \<or> t = [newline]))"
    by blast
  finally show ?thesis .
qed

lemma re_match_format_pattern:
  "re_match format_pattern s \<noteq> None \<longleftrightarrow> matches_format s"
  unfolding re_match_def format_pattern_def matches_format_def
  by (rule re_run_tagged)

section \<open>\<^verbatim>\<open>format_reward\<close> on conversational completions\<close>

lemma comprehension_Inr:
  "(\<And>x. x \<in> set xs \<Longrightarrow> f x = Inr (g x)) \<Longrightarrow> comprehension f xs = Inr (map g xs)"
  by (induction xs) auto

lemma comprehension_cong_map:
  "map f xs = map f ys \<Longrightarrow> comprehension f xs = comprehension f ys"
proof (induction xs arbitrary: ys)
  case Nil
  then show ?case by simp
next
  case (Cons x xs)
  then obtain y ys' where ys: "ys = y # ys'" by (cases ys) auto
  with Cons.prems have "f x = f y" "map f xs = map f ys'" by auto
  with Cons.IH[of ys'] ys show ?case by (simp split: sum.splits)
qed

lemma first_content_Inr_iff:
  "first_content c = Inr s \<longleftrightarrow> (\<exists>m ms. c = m # ms \<and> m ''content'' = Some s)"
  by (auto simp: first_content_def getitem_def split: list.splits option.splits)

lemma conversational_first_content:
  "conversational c \<Longrightarrow> first_content c = Inr (content_of c)"
  by (auto simp: conversational_def content_of_def first_content_def getitem_def split: list.splits)

lemma re_match_truth:
  "(if re_match format_pattern s \<noteq> None then 1 else 0) = (if matches_format s then 1 else (0::real))"
  by (simp only: re_match_format_pattern)

lemma format_reward_conversational:
  assumes "\<forall>c\<in>set completions. conversational c"
  shows "format_reward completions kwargs w =
           (Inr (map (\<lambda>c. if matches_format (content_of c) then 1 else 0) completions), w)"
proof -
  have "comprehension first_content completions = Inr (map content_of completions)"
    using assms by (intro comprehension_Inr) (simp add: conversational_first_content)
  then show ?thesis
    by (simp add: format_reward_def re_match_truth comp_def del: not_None_eq)
qed

lemma sample_completions_conversational: "\<forall>c\<in>set sample_completions. conversational c"
  by (simp add: sample_completions_def conversational_def)

lemma sample_text_matches: "matches_format ''<think>2+2</think><answer>4</answer>''"
  unfolding re_match_format_pattern[symmetric] by (simp add: re_match_def format_pattern_def)

lemma sample_text_no_match: "\<not> matches_format ''The answer is 4.''"
  unfolding re_match_format_pattern[symmetric] by (simp add: re_match_def format_pattern_def)

text \<open>
  C1. For every list of completions in the conversational format, \<^verbatim>\<open>format_reward\<close>
  returns a list of the same length, and leaves the world as it was; the element at
  index \<open>i\<close> is 1.0 if the content of the first message of the completion at \<open>i\<close> is a
  text of the format (it matches the pattern from the start of the string), and 0.0
  otherwise.
\<close>

theorem format_reward_spec:
  assumes "\<forall>c\<in>set completions. conversational c"
  shows "\<exists>rewards. format_reward completions kwargs w = (Inr rewards, w) \<and>
           length rewards = length completions \<and>
           (\<forall>i<length completions. \<forall>m ms content.
              completions ! i = m # ms \<and> m ''content'' = Some content \<longrightarrow>
              rewards ! i = (if matches_format content then 1 else 0))"
proof -
  let ?rs = "map (\<lambda>c. if matches_format (content_of c) then 1 else 0 :: real) completions"
  have "\<And>i m ms content. i < length completions \<Longrightarrow> completions ! i = m # ms \<Longrightarrow>
          m ''content'' = Some content \<Longrightarrow> content_of (completions ! i) = content"
    by (simp add: content_of_def first_content_def getitem_def)
  then have "\<forall>i<length completions. \<forall>m ms content.
              completions ! i = m # ms \<and> m ''content'' = Some content \<longrightarrow>
              ?rs ! i = (if matches_format content then 1 else 0)"
    by simp
  with format_reward_conversational[OF assms, of kwargs w] show ?thesis
    by simp
qed

theorem format_reward_spec_witness:
  "list_all conversational sample_completions \<and>
   format_reward sample_completions () \<lparr>stdout = ''''\<rparr> = (Inr [1, 0], \<lparr>stdout = ''''\<rparr>)"
proof -
  note h = sample_completions_conversational
  from format_reward_spec[OF h, of "()" "\<lparr>stdout = ''''\<rparr>"] obtain rewards where
    r: "format_reward sample_completions () \<lparr>stdout = ''''\<rparr> = (Inr rewards, \<lparr>stdout = ''''\<rparr>)"
    and l: "length rewards = length sample_completions"
    and v: "\<forall>i<length sample_completions. \<forall>m ms content.
              sample_completions ! i = m # ms \<and> m ''content'' = Some content \<longrightarrow>
              rewards ! i = (if matches_format content then 1 else 0)"
    by blast
  from l obtain a b where ab: "rewards = [a, b]"
    by (auto simp: sample_completions_def length_Suc_conv)
  from v[rule_format, of 0] sample_text_matches have "rewards ! 0 = 1"
    by (simp add: sample_completions_def)
  moreover from v[rule_format, of 1] sample_text_no_match have "rewards ! 1 = 0"
    by (simp add: sample_completions_def)
  ultimately have "rewards = [1, 0]" using ab by simp
  with r h show ?thesis by (simp add: list_all_iff)
qed

section \<open>\<^verbatim>\<open>accuracy_reward\<close> on conversational completions\<close>

lemma accuracy_loop_eq:
  "accuracy_loop parse verify ps rewards w =
     (rewards @ map (\<lambda>(content, sol). pair_reward parse verify content sol) ps,
      w\<lparr>stdout := stdout w @ failure_output parse (map snd ps)\<rparr>)"
proof (induction ps arbitrary: rewards w)
  case Nil
  then show ?case by (simp add: failure_output_def)
next
  case (Cons p ps)
  obtain content sol where p: "p = (content, sol)" by (cases p)
  show ?case
  proof (cases "parse sol gold_extraction_config ''first_match'' = []")
    case True
    then show ?thesis
      by (simp add: p Cons.IH pair_reward_def failure_output_def failure_line_def print_def)
  next
    case False
    then show ?thesis
      by (simp add: p Cons.IH pair_reward_def failure_output_def)
  qed
qed

lemma accuracy_reward_conversational:
  assumes "\<forall>c\<in>set completions. conversational c"
  shows "accuracy_reward parse verify completions solution kwargs w =
           (Inr (map (\<lambda>(content, sol). pair_reward parse verify content sol)
                  (zip (map content_of completions) solution)),
            w\<lparr>stdout := stdout w @ failure_output parse (take (length completions) solution)\<rparr>)"
proof -
  have "comprehension first_content completions = Inr (map content_of completions)"
    using assms by (intro comprehension_Inr) (simp add: conversational_first_content)
  moreover have "map snd (zip (map content_of completions) solution) = take (length completions) solution"
    by (simp add: map_snd_zip_take min_def)
  ultimately show ?thesis
    by (simp add: accuracy_reward_def accuracy_loop_eq)
qed

lemma comprehension_Inl:
  "x \<in> set xs \<Longrightarrow> f x = Inl e \<Longrightarrow> \<exists>e'. comprehension f xs = Inl e'"
  by (induction xs) (auto split: sum.splits)

lemma not_conversational_first_content:
  "\<not> conversational c \<Longrightarrow> \<exists>e. first_content c = Inl e"
  by (auto simp: conversational_def first_content_def getitem_def split: list.splits)

lemma contents_raise:
  assumes "\<not> (\<forall>c\<in>set completions. conversational c)"
  shows "\<exists>e. comprehension first_content completions = Inl e"
  using assms by (meson comprehension_Inl not_conversational_first_content)

lemma content_of_first:
  "c = m # ms \<Longrightarrow> m ''content'' = Some content \<Longrightarrow> content_of c = content"
  by (simp add: content_of_def first_content_def getitem_def)

lemma accuracy_reward_at:
  assumes wf: "\<forall>c\<in>set completions. conversational c"
    and i: "i < min (length completions) (length solution)"
  shows "\<exists>rewards w'. accuracy_reward parse verify completions solution kwargs w = (Inr rewards, w') \<and>
           length rewards = min (length completions) (length solution) \<and>
           rewards ! i = pair_reward parse verify (content_of (completions ! i)) (solution ! i)"
  using i by (simp add: accuracy_reward_conversational[OF wf])

text \<open>
  C2. For conversational completions and every index \<open>i\<close> below the smaller of the two
  lengths at which the gold parse of the solution is not empty, \<^verbatim>\<open>accuracy_reward\<close>
  returns a list whose element at \<open>i\<close> is \<^verbatim>\<open>float(verify(answer_parsed, gold_parsed))\<close>:
  1.0 when the verifier accepts the parsed content against the parsed solution, and 0.0
  otherwise. The parser and the verifier are arbitrary.
\<close>

theorem accuracy_reward_verified:
  assumes "\<forall>c\<in>set completions. conversational c"
    and "i < min (length completions) (length solution)"
    and "completions ! i = m # ms" and "m ''content'' = Some content"
    and "parse (solution ! i) gold_extraction_config ''first_match'' \<noteq> []"
  shows "\<exists>rewards w'. accuracy_reward parse verify completions solution kwargs w = (Inr rewards, w') \<and>
           rewards ! i =
             (if verify (parse content answer_extraction_config ''first_match'')
                        (parse (solution ! i) gold_extraction_config ''first_match'')
              then 1 else 0)"
proof -
  from accuracy_reward_at[OF assms(1,2), of parse verify kwargs w] obtain rewards w' where
    r: "accuracy_reward parse verify completions solution kwargs w = (Inr rewards, w')"
    and v: "rewards ! i = pair_reward parse verify (content_of (completions ! i)) (solution ! i)"
    by blast
  from v assms(5) content_of_first[OF assms(3,4)]
  have "rewards ! i =
             (if verify (parse content answer_extraction_config ''first_match'')
                        (parse (solution ! i) gold_extraction_config ''first_match'')
              then 1 else 0)"
    by (simp add: pair_reward_def)
  with r show ?thesis by blast
qed

lemma sample_answers_conversational: "\<forall>c\<in>set sample_answers. conversational c"
  by (simp add: sample_answers_def conversational_def)

lemma sample_run:
  "accuracy_reward sample_parse sample_verify sample_answers sample_solution () \<lparr>stdout = ''''\<rparr> =
     (Inr [1, 1, 0], \<lparr>stdout = ''Failed to parse gold solution:  '' @ [newline]\<rparr>)"
  by (simp add: accuracy_reward_def sample_answers_def sample_solution_def first_content_def getitem_def
     sample_parse_def sample_verify_def print_def)

theorem accuracy_reward_verified_witness:
  "list_all conversational sample_answers \<and>
   sample_parse (sample_solution ! 0) gold_extraction_config ''first_match'' = [''4''] \<and>
   sample_parse (sample_solution ! 2) gold_extraction_config ''first_match'' = [''7''] \<and>
   (\<exists>rewards w'. accuracy_reward sample_parse sample_verify sample_answers sample_solution ()
        \<lparr>stdout = ''''\<rparr> = (Inr rewards, w') \<and> rewards ! 0 = 1 \<and> rewards ! 2 = 0)"
proof -
  note h = sample_answers_conversational
  have i0: "0 < min (length sample_answers) (length sample_solution)"
    and i2: "2 < min (length sample_answers) (length sample_solution)"
    by (simp_all add: sample_answers_def sample_solution_def)
  have c0: "sample_answers ! 0 = [''role'' \<mapsto> ''assistant'', ''content'' \<mapsto> ''4''] # []"
    and c2: "sample_answers ! 2 = [''role'' \<mapsto> ''assistant'', ''content'' \<mapsto> ''6''] # []"
    by (simp_all add: sample_answers_def)
  have g0: "sample_parse (sample_solution ! 0) gold_extraction_config ''first_match'' \<noteq> []"
    and g2: "sample_parse (sample_solution ! 2) gold_extraction_config ''first_match'' \<noteq> []"
    by (simp_all add: sample_solution_def sample_parse_def)
  from accuracy_reward_verified[where completions = sample_answers and solution = sample_solution
      and parse = sample_parse and verify = sample_verify and i = 0 and content = "''4''"
      and kwargs = "()" and w = "\<lparr>stdout = ''''\<rparr>", OF h i0 c0 _ g0]
  obtain r0 w0 where
    a0: "accuracy_reward sample_parse sample_verify sample_answers sample_solution () \<lparr>stdout = ''''\<rparr> = (Inr r0, w0)"
    and v0: "r0 ! 0 = 1"
    by (auto simp: sample_solution_def sample_parse_def sample_verify_def)
  from accuracy_reward_verified[where completions = sample_answers and solution = sample_solution
      and parse = sample_parse and verify = sample_verify and i = 2 and content = "''6''"
      and kwargs = "()" and w = "\<lparr>stdout = ''''\<rparr>", OF h i2 c2 _ g2]
  obtain r2 w2 where
    a2: "accuracy_reward sample_parse sample_verify sample_answers sample_solution () \<lparr>stdout = ''''\<rparr> = (Inr r2, w2)"
    and v2: "r2 ! 2 = 0"
    by (auto simp: sample_solution_def sample_parse_def sample_verify_def)
  from a0 a2 have "r2 = r0" by simp
  with a0 v0 v2 h show ?thesis
    by (simp add: list_all_iff sample_solution_def sample_parse_def)
qed

text \<open>
  C8. For conversational completions and every index \<open>i\<close> below the smaller of the two
  lengths at which the gold parse of the solution is empty, \<^verbatim>\<open>accuracy_reward\<close> returns
  a list (it does not raise) whose element at \<open>i\<close> is 1.0, whatever the content of the
  completion.
\<close>

theorem accuracy_reward_unparseable_gold:
  assumes "\<forall>c\<in>set completions. conversational c"
    and "i < min (length completions) (length solution)"
    and "parse (solution ! i) gold_extraction_config ''first_match'' = []"
  shows "\<exists>rewards w'. accuracy_reward parse verify completions solution kwargs w = (Inr rewards, w') \<and>
           rewards ! i = 1"
proof -
  from accuracy_reward_at[OF assms(1,2), of parse verify kwargs w] obtain rewards w' where
    r: "accuracy_reward parse verify completions solution kwargs w = (Inr rewards, w')"
    and v: "rewards ! i = pair_reward parse verify (content_of (completions ! i)) (solution ! i)"
    by blast
  from v assms(3) have "rewards ! i = 1" by (simp add: pair_reward_def)
  with r show ?thesis by blast
qed

theorem accuracy_reward_unparseable_gold_witness:
  "list_all conversational sample_answers \<and>
   sample_parse (sample_solution ! 1) gold_extraction_config ''first_match'' = [] \<and>
   (\<exists>rewards w'. accuracy_reward sample_parse sample_verify sample_answers sample_solution ()
        \<lparr>stdout = ''''\<rparr> = (Inr rewards, w') \<and> rewards ! 1 = 1)"
proof -
  note h = sample_answers_conversational
  have i1: "1 < min (length sample_answers) (length sample_solution)"
    by (simp add: sample_answers_def sample_solution_def)
  have g1: "sample_parse (sample_solution ! 1) gold_extraction_config ''first_match'' = []"
    by (simp add: sample_solution_def sample_parse_def)
  from accuracy_reward_unparseable_gold[where completions = sample_answers
      and solution = sample_solution and parse = sample_parse and verify = sample_verify and i = 1
      and kwargs = "()" and w = "\<lparr>stdout = ''''\<rparr>", OF h i1 g1] h g1
  show ?thesis by (simp add: list_all_iff)
qed

text \<open>
  C9. On conversational completions both functions return lists of rewards that are 0.0
  or 1.0; \<^verbatim>\<open>format_reward\<close> returns one reward for each completion, and
  \<^verbatim>\<open>accuracy_reward\<close> returns as many as the shorter of its two lists has elements:
  the elements of the longer list past that point have no reward.
\<close>

theorem reward_lists_binary:
  assumes "\<forall>c\<in>set completions. conversational c"
  shows "\<exists>rf ra w'. format_reward completions kwargs w = (Inr rf, w) \<and>
           accuracy_reward parse verify completions solution kwargs' w = (Inr ra, w') \<and>
           set rf \<subseteq> {0, 1} \<and> set ra \<subseteq> {0, 1} \<and>
           length rf = length completions \<and>
           length ra = min (length completions) (length solution)"
proof -
  have "set (map (\<lambda>(content, sol). pair_reward parse verify content sol)
                  (zip (map content_of completions) solution)) \<subseteq> {0, 1}"
    by (auto simp: pair_reward_def split: if_splits)
  moreover have "set (map (\<lambda>c. if matches_format (content_of c) then 1 else 0 :: real) completions) \<subseteq> {0, 1}"
    by auto
  ultimately show ?thesis
    unfolding accuracy_reward_conversational[OF assms] format_reward_conversational[OF assms]
    by simp
qed

theorem reward_lists_binary_witness:
  "list_all conversational sample_answers \<and>
   format_reward sample_answers () \<lparr>stdout = ''''\<rparr> = (Inr [0, 0, 0], \<lparr>stdout = ''''\<rparr>) \<and>
   fst (accuracy_reward sample_parse sample_verify sample_answers sample_solution ()
        \<lparr>stdout = ''''\<rparr>) = Inr [1, 1, 0] \<and>
   length sample_answers = 3 \<and> length sample_solution = 4"
proof -
  note h = sample_answers_conversational
  have f: "format_reward sample_answers () \<lparr>stdout = ''''\<rparr> = (Inr [0, 0, 0], \<lparr>stdout = ''''\<rparr>)"
    by (simp add: format_reward_def sample_answers_def first_content_def getitem_def
        re_match_def format_pattern_def)
  from reward_lists_binary[OF h, of "()" "\<lparr>stdout = ''''\<rparr>" sample_parse sample_verify sample_solution "()"]
    h f sample_run
  show ?thesis
    by (simp add: list_all_iff sample_answers_def sample_solution_def)
qed

section \<open>The output of \<^verbatim>\<open>accuracy_reward\<close>\<close>

lemma format_reward_world: "snd (format_reward completions kwargs w) = w"
  by (simp add: format_reward_def split: sum.splits)


lemma accuracy_reward_world:
  "snd (accuracy_reward parse verify completions solution kwargs w) =
     (if list_all conversational completions
      then w\<lparr>stdout := stdout w @ failure_output parse (take (length completions) solution)\<rparr>
      else w)"
proof (cases "\<forall>c\<in>set completions. conversational c")
  case True
  then show ?thesis
    by (simp add: accuracy_reward_conversational list_all_iff)
next
  case False
  from contents_raise[OF False] obtain e where "comprehension first_content completions = Inl e"
    by blast
  moreover from False have "\<not> list_all conversational completions"
    by (simp add: list_all_iff)
  ultimately show ?thesis
    by (simp add: accuracy_reward_def)
qed


section \<open>The effects of the reward functions on the objects of the store\<close>




















section \<open>Two runs, and newlines\<close>

text \<open>
  C7. Two runs of \<^verbatim>\<open>format_reward\<close> on completion lists whose first-message contents
  agree pointwise return the same result, whatever the rest of the completions, the
  keyword arguments and the worlds of the two runs are. With the same list in both runs
  this is determinism.
\<close>

theorem format_reward_two_runs:
  assumes "map first_content completions1 = map first_content completions2"
  shows "fst (format_reward completions1 kwargs1 w1) = fst (format_reward completions2 kwargs2 w2)"
  using comprehension_cong_map[OF assms]
  by (simp add: format_reward_def split: sum.splits)

theorem format_reward_two_runs_witness:
  "map first_content sample_completions = map first_content sample_other_completions \<and>
   sample_completions \<noteq> sample_other_completions \<and>
   fst (format_reward sample_completions () \<lparr>stdout = ''''\<rparr>) =
   fst (format_reward sample_other_completions True \<lparr>stdout = ''earlier output''\<rparr>)"
proof -
  have h: "map first_content sample_completions = map first_content sample_other_completions"
    by (simp add: sample_completions_def sample_other_completions_def first_content_def getitem_def)
  have d: "sample_completions \<noteq> sample_other_completions"
    by (simp add: sample_completions_def sample_other_completions_def)
  from format_reward_two_runs[OF h, of "()" "\<lparr>stdout = ''''\<rparr>" True "\<lparr>stdout = ''earlier output''\<rparr>"] h d
  show ?thesis by simp
qed

lemma matches_format_butlast: "matches_format s \<Longrightarrow> newline \<notin> set (butlast s)"
proof -
  assume "matches_format s"
  then obtain a b t where s: "s = ''<think>'' @ a @ ''</think><answer>'' @ b @ ''</answer>'' @ t"
    and a: "newline \<notin> set a" and b: "newline \<notin> set b" and t: "t = [] \<or> t = [newline]"
    unfolding matches_format_def by blast
  let ?body = "''<think>'' @ a @ ''</think><answer>'' @ b @ ''</answer>''"
  have nb: "newline \<notin> set ?body" using a b by simp
  have s': "s = ?body @ t" using s by simp
  from t show ?thesis
  proof
    assume "t = []"
    with s' nb show ?thesis by (metis append_Nil2 in_set_butlastD)
  next
    assume "t = [newline]"
    with s' have "butlast s = ?body" by (simp only: butlast_snoc)
    with nb show ?thesis by simp
  qed
qed

lemma newline_between_butlast:
  assumes "newline_between opening closing s" and "closing \<noteq> []"
  shows "newline \<in> set (butlast s)"
proof -
  from assms(1) obtain u v x where s: "s = u @ opening @ v @ closing @ x" and v: "newline \<in> set v"
    unfolding newline_between_def by blast
  from assms(2) have "closing @ x \<noteq> []" by simp
  then have "butlast ((u @ opening @ v) @ (closing @ x)) = (u @ opening @ v) @ butlast (closing @ x)"
    by (metis butlast_append)
  then have "butlast s = (u @ opening @ v) @ butlast (closing @ x)"
    unfolding s by (simp only: append_assoc)
  with v show ?thesis by simp
qed

lemma matches_format_trailing_newline:
  "newline \<notin> set a \<Longrightarrow> newline \<notin> set b \<Longrightarrow>
   matches_format (''<think>'' @ a @ ''</think><answer>'' @ b @ ''</answer>'' @ [newline])"
  unfolding matches_format_def by blast

text \<open>
  C10. For a completion whose content has a newline between \<^verbatim>\<open><think>\<close> and a later
  \<^verbatim>\<open></think>\<close>, or between \<^verbatim>\<open><answer>\<close> and a later \<^verbatim>\<open></answer>\<close>,
  \<^verbatim>\<open>format_reward\<close> returns 0.0; for a content that follows the format on one line and
  ends in \<^verbatim>\<open></answer>\<close> and one newline, it returns 1.0.
\<close>

theorem format_reward_newlines:
  assumes "\<forall>c\<in>set completions. conversational c"
    and "i < length completions"
    and "completions ! i = m # ms" and "m ''content'' = Some content"
  shows "\<exists>rewards. format_reward completions kwargs w = (Inr rewards, w) \<and>
           (newline_between ''<think>'' ''</think>'' content \<or>
            newline_between ''<answer>'' ''</answer>'' content \<longrightarrow> rewards ! i = 0) \<and>
           (\<forall>a b. content = ''<think>'' @ a @ ''</think><answer>'' @ b @ ''</answer>'' @ [newline] \<and>
              newline \<notin> set a \<and> newline \<notin> set b \<longrightarrow> rewards ! i = 1)"
proof -
  let ?rs = "map (\<lambda>c. if matches_format (content_of c) then 1 else 0 :: real) completions"
  have c: "content_of (completions ! i) = content"
    using assms(3,4) by (rule content_of_first)
  have r: "?rs ! i = (if matches_format content then 1 else 0)"
    using assms(2) c by simp
  have "\<not> matches_format content"
    if "newline_between ''<think>'' ''</think>'' content \<or>
        newline_between ''<answer>'' ''</answer>'' content"
    using that matches_format_butlast[of content] newline_between_butlast[of _ _ content]
    by fastforce
  moreover have "matches_format content"
    if "content = ''<think>'' @ a @ ''</think><answer>'' @ b @ ''</answer>'' @ [newline]"
      "newline \<notin> set a" "newline \<notin> set b" for a b
    using that matches_format_trailing_newline by simp
  ultimately have "(newline_between ''<think>'' ''</think>'' content \<or>
            newline_between ''<answer>'' ''</answer>'' content \<longrightarrow> ?rs ! i = 0) \<and>
           (\<forall>a b. content = ''<think>'' @ a @ ''</think><answer>'' @ b @ ''</answer>'' @ [newline] \<and>
              newline \<notin> set a \<and> newline \<notin> set b \<longrightarrow> ?rs ! i = 1)"
    unfolding r by simp
  with format_reward_conversational[OF assms(1), of kwargs w] show ?thesis
    by blast
qed

theorem format_reward_newlines_witness:
  "newline_between ''<think>'' ''</think>''
     (''<think>step 1'' @ [newline] @ ''step 2</think><answer>4</answer>'') \<and>
   (\<exists>rewards. format_reward sample_multiline () \<lparr>stdout = ''''\<rparr> = (Inr rewards, \<lparr>stdout = ''''\<rparr>) \<and>
      rewards ! 0 = 0 \<and> rewards ! 1 = 1)"
proof -
  have h: "\<forall>c\<in>set sample_multiline. conversational c"
    by (simp add: sample_multiline_def conversational_def)
  have nb: "newline_between ''<think>'' ''</think>''
     (''<think>step 1'' @ [newline] @ ''step 2</think><answer>4</answer>'')"
    unfolding newline_between_def
    by (rule exI[of _ "[]"], rule exI[of _ "''step 1'' @ [newline] @ ''step 2''"],
        rule exI[of _ "''<answer>4</answer>''"]) simp
  have i0: "0 < length sample_multiline" and i1: "1 < length sample_multiline"
    by (simp_all add: sample_multiline_def)
  have c0: "sample_multiline ! 0 =
      [''content'' \<mapsto> ''<think>step 1'' @ [newline] @ ''step 2</think><answer>4</answer>''] # []"
    and c1: "sample_multiline ! 1 =
      [''content'' \<mapsto> ''<think>2+2</think><answer>4</answer>'' @ [newline]] # []"
    by (simp_all add: sample_multiline_def)
  from format_reward_newlines[OF h i0 c0, of _ "()" "\<lparr>stdout = ''''\<rparr>"] nb
  obtain r0 where e0: "format_reward sample_multiline () \<lparr>stdout = ''''\<rparr> = (Inr r0, \<lparr>stdout = ''''\<rparr>)"
    and v0: "r0 ! 0 = 0"
    by auto
  from format_reward_newlines[OF h i1 c1, of _ "()" "\<lparr>stdout = ''''\<rparr>"]
  obtain r1 where e1: "format_reward sample_multiline () \<lparr>stdout = ''''\<rparr> = (Inr r1, \<lparr>stdout = ''''\<rparr>)"
    and v1: "\<forall>a b. ''<think>2+2</think><answer>4</answer>'' @ [newline] =
                ''<think>'' @ a @ ''</think><answer>'' @ b @ ''</answer>'' @ [newline] \<and>
              newline \<notin> set a \<and> newline \<notin> set b \<longrightarrow> r1 ! 1 = 1"
    by auto
  from v1[rule_format, of "''2+2''" "''4''"] have "r1 ! 1 = 1" by simp
  moreover from e0 e1 have "r1 = r0" by simp
  ultimately show ?thesis using nb e0 v0 by blast
qed

section \<open>The conversation format, the registry and the order of the pipeline\<close>

lemma make_conversation_eq:
  "example ''problem'' = Some problem \<Longrightarrow>
   make_conversation example = Inr [''prompt'' \<mapsto> prompt_of problem]"
  by (simp add: make_conversation_def getitem_def prompt_of_def)

lemma map_row_make_conversation:
  "example ''problem'' = Some problem \<Longrightarrow>
   map_row make_conversation example = Inr (example(''prompt'' \<mapsto> prompt_of problem))"
  by (simp add: map_row_def make_conversation_eq)

text \<open>
  C5. For every example with a \<^verbatim>\<open>"problem"\<close> field, \<^verbatim>\<open>make_conversation\<close> returns a
  dictionary with the one key \<^verbatim>\<open>"prompt"\<close>, and the row \<^verbatim>\<open>dataset.map\<close> makes of it
  keeps every other column and has, as its \<^verbatim>\<open>"prompt"\<close>, a list of exactly two messages:
  first one with role \<^verbatim>\<open>"system"\<close> and content \<open>SYSTEM_PROMPT\<close>, then one with role
  \<^verbatim>\<open>"user"\<close> and the example's problem as content; the messages have no other key.
\<close>

theorem make_conversation_prompt:
  assumes "example ''problem'' = Some problem"
  shows "\<exists>new row system user.
           make_conversation example = Inr new \<and> dom new = {''prompt''} \<and>
           map_row make_conversation example = Inr row \<and>
           new ''prompt'' = Some (Chat [system, user]) \<and>
           row ''prompt'' = Some (Chat [system, user]) \<and>
           (\<forall>k. k \<noteq> ''prompt'' \<longrightarrow> row k = example k) \<and>
           dom system = {''role'', ''content''} \<and>
           system ''role'' = Some (Str ''system'') \<and>
           system ''content'' = Some (Str SYSTEM_PROMPT) \<and>
           dom user = {''role'', ''content''} \<and>
           user ''role'' = Some (Str ''user'') \<and>
           user ''content'' = Some problem"
proof -
  let ?system = "[''role'' \<mapsto> Str ''system'', ''content'' \<mapsto> Str SYSTEM_PROMPT]"
  let ?user = "[''role'' \<mapsto> Str ''user'', ''content'' \<mapsto> problem]"
  have "make_conversation example = Inr [''prompt'' \<mapsto> Chat [?system, ?user]]"
    using assms by (simp add: make_conversation_eq prompt_of_def)
  moreover have "map_row make_conversation example = Inr (example(''prompt'' \<mapsto> Chat [?system, ?user]))"
    using assms by (simp add: map_row_make_conversation prompt_of_def)
  moreover have "dom ?system = {''role'', ''content''}" "dom ?user = {''role'', ''content''}"
    by auto
  ultimately show ?thesis
    by (intro exI[of _ "[''prompt'' \<mapsto> Chat [?system, ?user]]"]
        exI[of _ "example(''prompt'' \<mapsto> Chat [?system, ?user])"] exI[of _ ?system] exI[of _ ?user])
      simp
qed

theorem make_conversation_prompt_witness:
  "make_conversation [''problem'' \<mapsto> Str ''What is 2+2?'', ''solution'' \<mapsto> Str ''4''] =
     Inr [''prompt'' \<mapsto>
       Chat [[''role'' \<mapsto> Str ''system'', ''content'' \<mapsto> Str SYSTEM_PROMPT],
             [''role'' \<mapsto> Str ''user'', ''content'' \<mapsto> Str ''What is 2+2?'']]]"
proof -
  have h: "[''problem'' \<mapsto> Str ''What is 2+2?'', ''solution'' \<mapsto> Str ''4''] ''problem'' =
      Some (Str ''What is 2+2?'')"
    by simp
  from make_conversation_prompt[where example = "[''problem'' \<mapsto> Str ''What is 2+2?'', ''solution'' \<mapsto> Str ''4'']", OF h] show ?thesis
    by (simp add: make_conversation_def getitem_def)
qed

lemma registry_dom: "dom reward_funcs_registry = {''accuracy'', ''format''}"
  by (auto simp: reward_funcs_registry_def)

lemma select_reward_funcs_known:
  "set reward_types \<subseteq> {''accuracy'', ''format''} \<Longrightarrow>
   select_reward_funcs reward_types =
     Inr (map (\<lambda>t. if t = ''accuracy'' then Fn_accuracy_reward else Fn_format_reward) reward_types)"
  unfolding select_reward_funcs_def
  by (intro comprehension_Inr) (auto simp: getitem_def reward_funcs_registry_def)

lemma main_calls:
  assumes "main env compiled_model_path dataset_name model_output_dir reward_types training_args trace = (r, trace')"
  shows "\<exists>trainer calls. trace' = trace @ calls \<and>
           prefix calls [Load_dataset dataset_name, Dataset_map, GRPOTrainer_init trainer, Train,
                         Save_model model_output_dir] \<and>
           (3 \<le> length calls \<longrightarrow>
              model_arg trainer = compiled_model_path \<and>
              select_reward_funcs reward_types = Inr (reward_funcs_arg trainer) \<and>
              (\<exists>loaded dataset. load_dataset env dataset_name = Inr loaded \<and>
                 dataset_map make_conversation loaded = Inr dataset \<and>
                 map_of dataset ''train'' = Some (train_dataset_arg trainer) \<and>
                 map_of dataset ''test'' = Some (eval_dataset_arg trainer))) \<and>
           (4 \<le> length calls \<longrightarrow> init_raises env trainer = None) \<and>
           (5 \<le> length calls \<longrightarrow> train_raises env trainer = None) \<and>
           (r = Inr () \<longleftrightarrow> length calls = 5 \<and> save_model_raises env trainer model_output_dir = None)"
proof -
  let ?seq = "\<lambda>trainer. [Load_dataset dataset_name, Dataset_map, GRPOTrainer_init trainer, Train,
                         Save_model model_output_dir]"
  note m = assms[unfolded main_def Let_def]
  show ?thesis
  proof (cases "select_reward_funcs reward_types")
    case (Inl e)
    with m have "trace' = trace @ []" "r = Inl e" by simp_all
    then show ?thesis by (intro exI[of _ undefined] exI[of _ "[]"]) simp
  next
    case sel: (Inr reward_funcs)
    show ?thesis
    proof (cases "load_dataset env dataset_name")
      case (Inl e)
      with m sel have "trace' = trace @ [Load_dataset dataset_name]" "r = Inl e" by simp_all
      then show ?thesis
        by (intro exI[of _ undefined] exI[of _ "[Load_dataset dataset_name]"]) simp
    next
      case ld: (Inr loaded)
      have early: ?thesis if "trace' = trace @ [Load_dataset dataset_name, Dataset_map]" "r = Inl e" for e
        using that
        by (intro exI[of _ undefined] exI[of _ "[Load_dataset dataset_name, Dataset_map]"]) simp
      show ?thesis
      proof (cases "dataset_map make_conversation loaded")
        case (Inl e)
        with m sel ld show ?thesis by (intro early[of e]) simp_all
      next
        case mp: (Inr dataset)
        show ?thesis
        proof (cases "map_of dataset ''train''")
          case None
          with m sel ld mp show ?thesis
            by (intro early[of "KeyError ''train''"]) (simp_all add: getitem_def)
        next
          case tr: (Some train)
          show ?thesis
          proof (cases "map_of dataset ''test''")
            case None
            with m sel ld mp tr show ?thesis
              by (intro early[of "KeyError ''test''"]) (simp_all add: getitem_def)
          next
            case te: (Some test)
            define trainer where "trainer =
              \<lparr>model_arg = compiled_model_path, reward_funcs_arg = reward_funcs,
               train_dataset_arg = train, eval_dataset_arg = test\<rparr>"
            have flow: "model_arg trainer = compiled_model_path \<and>
              select_reward_funcs reward_types = Inr (reward_funcs_arg trainer) \<and>
              (\<exists>loaded dataset. load_dataset env dataset_name = Inr loaded \<and>
                 dataset_map make_conversation loaded = Inr dataset \<and>
                 map_of dataset ''train'' = Some (train_dataset_arg trainer) \<and>
                 map_of dataset ''test'' = Some (eval_dataset_arg trainer))"
              using sel ld mp tr te by (simp add: trainer_def)
            note m' = m sel ld mp tr te
            show ?thesis
            proof (cases "init_raises env trainer")
              case (Some e)
              with m' have "trace' = trace @ take 3 (?seq trainer)" "r = Inl e" by (simp_all add: getitem_def trainer_def)
              with flow show ?thesis
                by (intro exI[of _ trainer] exI[of _ "take 3 (?seq trainer)"]) simp
            next
              case ini: None
              show ?thesis
              proof (cases "train_raises env trainer")
                case (Some e)
                with m' ini have "trace' = trace @ take 4 (?seq trainer)" "r = Inl e"
                  by (simp_all add: getitem_def trainer_def)
                with flow ini show ?thesis
                  by (intro exI[of _ trainer] exI[of _ "take 4 (?seq trainer)"]) simp
              next
                case trn: None
                show ?thesis
                proof (cases "save_model_raises env trainer model_output_dir")
                  case (Some e)
                  with m' ini trn have "trace' = trace @ ?seq trainer" "r = Inl e"
                    by (simp_all add: getitem_def trainer_def)
                  with flow ini trn Some show ?thesis
                    by (intro exI[of _ trainer] exI[of _ "?seq trainer"]) simp
                next
                  case None
                  with m' ini trn have "trace' = trace @ ?seq trainer" "r = Inr ()"
                    by (simp_all add: getitem_def trainer_def)
                  with flow ini trn None show ?thesis
                    by (intro exI[of _ trainer] exI[of _ "?seq trainer"]) simp
                qed
              qed
            qed
          qed
        qed
      qed
    qed
  qed
qed

lemma prefix_of_calls:
  assumes "prefix calls [a, b, c, d, e]"
  shows "calls = [] \<or> calls = [a] \<or> calls = [a, b] \<or> calls = [a, b, c] \<or>
         calls = [a, b, c, d] \<or> calls = [a, b, c, d, e]"
proof -
  from assms have "calls \<in> set (prefixes [a, b, c, d, e])"
    by (simp only: in_set_prefixes)
  then show ?thesis by auto
qed

lemma init_in_calls:
  assumes "prefix calls [Load_dataset n, Dataset_map, GRPOTrainer_init trainer, Train, Save_model d]"
    and "GRPOTrainer_init t \<in> set calls"
  shows "t = trainer \<and> 3 \<le> length calls"
  using prefix_of_calls[OF assms(1)] assms(2) by auto

lemma train_in_calls:
  assumes "prefix calls [Load_dataset n, Dataset_map, GRPOTrainer_init trainer, Train, Save_model d]"
    and "Train \<in> set calls"
  shows "4 \<le> length calls"
  using prefix_of_calls[OF assms(1)] assms(2) by auto

lemma save_in_calls:
  assumes "prefix calls [Load_dataset n, Dataset_map, GRPOTrainer_init trainer, Train, Save_model d]"
    and "Save_model d' \<in> set calls"
  shows "5 \<le> length calls"
  using prefix_of_calls[OF assms(1)] assms(2) by auto

lemma sample_main_run:
  "main sample_env ''/home/ubuntu/models/traced_qwen'' ''AI-MO/NuminaMath-TIR''
     ''/home/ubuntu/models/grpo_qwen'' [''accuracy'', ''format''] () [] =
   (Inr (),
    [Load_dataset ''AI-MO/NuminaMath-TIR'', Dataset_map, GRPOTrainer_init sample_trainer, Train,
     Save_model ''/home/ubuntu/models/grpo_qwen''])"
  by (simp add: main_def sample_env_def sample_dataset_def sample_trainer_def
      select_reward_funcs_def reward_funcs_registry_def getitem_def dataset_map_def
      map_split_def map_row_def make_conversation_def prompt_of_def)

lemma sample_main_train_raises:
  "main (sample_env\<lparr>train_raises := \<lambda>trainer. Some (LibraryError ''out of memory'')\<rparr>)
     ''/home/ubuntu/models/traced_qwen'' ''AI-MO/NuminaMath-TIR''
     ''/home/ubuntu/models/grpo_qwen'' [''accuracy'', ''format''] () [] =
   (Inl (LibraryError ''out of memory''),
    [Load_dataset ''AI-MO/NuminaMath-TIR'', Dataset_map, GRPOTrainer_init sample_trainer, Train])"
  by (simp add: main_def sample_env_def sample_dataset_def sample_trainer_def
      select_reward_funcs_def reward_funcs_registry_def getitem_def dataset_map_def
      map_split_def map_row_def make_conversation_def prompt_of_def)

text \<open>
  C4. The library calls of a run of \<^verbatim>\<open>main\<close>, in the order they are made, are a
  prefix of: load the dataset, map it, build the trainer, train, save the model. So the
  dataset is loaded before it is reformatted, the trainer is built before training and
  receives the splits of the reformatted dataset, and the model is saved only after
  \<^verbatim>\<open>trainer.train()\<close> has returned, never before training. A run that ends without an
  exception has made all five calls.
\<close>

theorem main_pipeline_order:
  assumes "main env compiled_model_path dataset_name model_output_dir reward_types training_args trace = (r, trace')"
  shows "\<exists>trainer calls. trace' = trace @ calls \<and>
           prefix calls [Load_dataset dataset_name, Dataset_map, GRPOTrainer_init trainer, Train,
                         Save_model model_output_dir] \<and>
           (GRPOTrainer_init trainer \<in> set calls \<longrightarrow>
              (\<exists>loaded dataset. load_dataset env dataset_name = Inr loaded \<and>
                 dataset_map make_conversation loaded = Inr dataset \<and>
                 map_of dataset ''train'' = Some (train_dataset_arg trainer) \<and>
                 map_of dataset ''test'' = Some (eval_dataset_arg trainer))) \<and>
           (Train \<in> set calls \<longrightarrow> init_raises env trainer = None) \<and>
           (Save_model model_output_dir \<in> set calls \<longrightarrow> train_raises env trainer = None) \<and>
           (r = Inr () \<longrightarrow>
              calls = [Load_dataset dataset_name, Dataset_map, GRPOTrainer_init trainer, Train,
                       Save_model model_output_dir])"
proof -
  from main_calls[OF assms] obtain trainer calls where
    t: "trace' = trace @ calls"
    and p: "prefix calls [Load_dataset dataset_name, Dataset_map, GRPOTrainer_init trainer, Train,
                         Save_model model_output_dir]"
    and f3: "3 \<le> length calls \<longrightarrow>
              model_arg trainer = compiled_model_path \<and>
              select_reward_funcs reward_types = Inr (reward_funcs_arg trainer) \<and>
              (\<exists>loaded dataset. load_dataset env dataset_name = Inr loaded \<and>
                 dataset_map make_conversation loaded = Inr dataset \<and>
                 map_of dataset ''train'' = Some (train_dataset_arg trainer) \<and>
                 map_of dataset ''test'' = Some (eval_dataset_arg trainer))"
    and f4: "4 \<le> length calls \<longrightarrow> init_raises env trainer = None"
    and f5: "5 \<le> length calls \<longrightarrow> train_raises env trainer = None"
    and fr: "r = Inr () \<longleftrightarrow> length calls = 5 \<and> save_model_raises env trainer model_output_dir = None"
    by blast
  have "r = Inr () \<longrightarrow>
              calls = [Load_dataset dataset_name, Dataset_map, GRPOTrainer_init trainer, Train,
                       Save_model model_output_dir]"
    using fr prefix_of_calls[OF p] by auto
  with t p f3 f4 f5 init_in_calls[OF p] train_in_calls[OF p] save_in_calls[OF p]
  show ?thesis by blast
qed

theorem main_pipeline_order_witness:
  "main sample_env ''/home/ubuntu/models/traced_qwen'' ''AI-MO/NuminaMath-TIR''
     ''/home/ubuntu/models/grpo_qwen'' [''accuracy'', ''format''] () [] =
   (Inr (),
    [Load_dataset ''AI-MO/NuminaMath-TIR'', Dataset_map, GRPOTrainer_init sample_trainer, Train,
     Save_model ''/home/ubuntu/models/grpo_qwen'']) \<and>
   train_raises sample_env sample_trainer = None \<and>
   init_raises sample_env sample_trainer = None \<and>
   dataset_map make_conversation sample_dataset =
     Inr [(''train'', train_dataset_arg sample_trainer), (''test'', eval_dataset_arg sample_trainer)] \<and>
   main (sample_env\<lparr>train_raises := \<lambda>trainer. Some (LibraryError ''out of memory'')\<rparr>)
     ''/home/ubuntu/models/traced_qwen'' ''AI-MO/NuminaMath-TIR''
     ''/home/ubuntu/models/grpo_qwen'' [''accuracy'', ''format''] () [] =
   (Inl (LibraryError ''out of memory''),
    [Load_dataset ''AI-MO/NuminaMath-TIR'', Dataset_map, GRPOTrainer_init sample_trainer, Train])"
proof -
  note run = sample_main_run
  from main_pipeline_order[OF run] obtain trainer calls where
    c: "[Load_dataset ''AI-MO/NuminaMath-TIR'', Dataset_map, GRPOTrainer_init sample_trainer, Train,
         Save_model ''/home/ubuntu/models/grpo_qwen''] = [] @ calls"
    and full: "Inr () = (Inr () :: error + unit) \<longrightarrow>
       calls = [Load_dataset ''AI-MO/NuminaMath-TIR'', Dataset_map, GRPOTrainer_init trainer, Train,
         Save_model ''/home/ubuntu/models/grpo_qwen'']"
    and i: "Train \<in> set calls \<longrightarrow> init_raises sample_env trainer = None"
    and s: "Save_model ''/home/ubuntu/models/grpo_qwen'' \<in> set calls \<longrightarrow>
       train_raises sample_env trainer = None"
    by blast
  from c full have "trainer = sample_trainer" by simp
  with c i s have "train_raises sample_env sample_trainer = None"
    "init_raises sample_env sample_trainer = None"
    by auto
  moreover have "dataset_map make_conversation sample_dataset =
     Inr [(''train'', train_dataset_arg sample_trainer), (''test'', eval_dataset_arg sample_trainer)]"
    by (simp add: sample_dataset_def sample_trainer_def dataset_map_def
      map_split_def map_row_def make_conversation_def prompt_of_def getitem_def)
  ultimately show ?thesis using run sample_main_train_raises by simp
qed

lemma main_builds_trainer:
  assumes sel: "select_reward_funcs reward_types = Inr reward_funcs"
    and ld: "load_dataset env dataset_name = Inr loaded"
    and mp: "dataset_map make_conversation loaded = Inr dataset"
    and tr: "map_of dataset ''train'' = Some train"
    and te: "map_of dataset ''test'' = Some test"
  shows "\<exists>r calls.
           main env compiled_model_path dataset_name model_output_dir reward_types training_args trace
             = (r, trace @ calls) \<and>
           take 3 calls =
             [Load_dataset dataset_name, Dataset_map,
              GRPOTrainer_init \<lparr>model_arg = compiled_model_path, reward_funcs_arg = reward_funcs,
                                 train_dataset_arg = train, eval_dataset_arg = test\<rparr>]"
proof -
  let ?trainer = "\<lparr>model_arg = compiled_model_path, reward_funcs_arg = reward_funcs,
     train_dataset_arg = train, eval_dataset_arg = test\<rparr>"
  let ?seq = "[Load_dataset dataset_name, Dataset_map, GRPOTrainer_init ?trainer, Train,
               Save_model model_output_dir]"
  let ?main = "main env compiled_model_path dataset_name model_output_dir reward_types training_args trace"
  have "snd ?main = trace @ take 3 ?seq \<or> snd ?main = trace @ take 4 ?seq \<or> snd ?main = trace @ ?seq"
    using sel ld mp tr te
    by (simp add: main_def Let_def getitem_def split: option.splits)
  then consider "?main = (fst ?main, trace @ take 3 ?seq)" | "?main = (fst ?main, trace @ take 4 ?seq)"
    | "?main = (fst ?main, trace @ ?seq)"
    by (metis prod.collapse)
  then show ?thesis
  proof cases
    case 1
    then show ?thesis by (intro exI[of _ "fst ?main"] exI[of _ "take 3 ?seq"]) simp
  next
    case 2
    then show ?thesis by (intro exI[of _ "fst ?main"] exI[of _ "take 4 ?seq"]) simp
  next
    case 3
    then show ?thesis by (intro exI[of _ "fst ?main"] exI[of _ "?seq"]) simp
  qed
qed

lemma registry_functions:
  "map_option (call_reward_func parse verify) \<circ> reward_funcs_registry =
     [''accuracy'' \<mapsto> accuracy_reward parse verify,
      ''format'' \<mapsto> (\<lambda>completions solution kwargs. format_reward completions (solution, kwargs))]"
  by (rule ext) (auto simp: reward_funcs_registry_def call_reward_func_def fun_eq_iff)

text \<open>
  C6. The registry has exactly the keys \<^verbatim>\<open>"accuracy"\<close> and \<^verbatim>\<open>"format"\<close>, and what it
  binds them to, when called, is \<^verbatim>\<open>accuracy_reward\<close> and \<^verbatim>\<open>format_reward\<close>. For every
  list of reward types drawn from these two keys, the selection of \<^verbatim>\<open>main\<close> returns the
  functions they name, in the order of the list; every trainer \<^verbatim>\<open>main\<close> builds has them
  as its reward functions; and whenever the dataset loads, maps and has its two splits,
  \<^verbatim>\<open>main\<close> does build the trainer, as its third call, with exactly these functions.
\<close>

theorem reward_funcs_selection:
  "dom reward_funcs_registry = {''accuracy'', ''format''} \<and>
   reward_funcs_registry ''accuracy'' = Some Fn_accuracy_reward \<and>
   reward_funcs_registry ''format'' = Some Fn_format_reward \<and>
   map_option (call_reward_func parse verify) \<circ> reward_funcs_registry =
     [''accuracy'' \<mapsto> accuracy_reward parse verify,
      ''format'' \<mapsto> (\<lambda>completions solution kwargs. format_reward completions (solution, kwargs))] \<and>
   (set reward_types \<subseteq> {''accuracy'', ''format''} \<longrightarrow>
      select_reward_funcs reward_types =
        Inr (map (\<lambda>t. if t = ''accuracy'' then Fn_accuracy_reward else Fn_format_reward)
               reward_types) \<and>
      (\<forall>r trace' trainer.
         main env compiled_model_path dataset_name model_output_dir reward_types training_args trace
           = (r, trace @ trace') \<and>
         GRPOTrainer_init trainer \<in> set trace' \<longrightarrow>
         reward_funcs_arg trainer =
           map (\<lambda>t. if t = ''accuracy'' then Fn_accuracy_reward else Fn_format_reward)
             reward_types) \<and>
      (\<forall>loaded dataset train test.
         load_dataset env dataset_name = Inr loaded \<and>
         dataset_map make_conversation loaded = Inr dataset \<and>
         map_of dataset ''train'' = Some train \<and> map_of dataset ''test'' = Some test \<longrightarrow>
         (\<exists>r calls.
            main env compiled_model_path dataset_name model_output_dir reward_types training_args trace
              = (r, trace @ calls) \<and>
            take 3 calls =
              [Load_dataset dataset_name, Dataset_map,
               GRPOTrainer_init
                 \<lparr>model_arg = compiled_model_path,
                  reward_funcs_arg =
                    map (\<lambda>t. if t = ''accuracy'' then Fn_accuracy_reward else Fn_format_reward)
                      reward_types,
                  train_dataset_arg = train, eval_dataset_arg = test\<rparr>])))"
proof -
  have old: "reward_funcs_arg trainer =
           map (\<lambda>t. if t = ''accuracy'' then Fn_accuracy_reward else Fn_format_reward) reward_types"
    if k: "set reward_types \<subseteq> {''accuracy'', ''format''}"
      and m: "main env compiled_model_path dataset_name model_output_dir reward_types training_args trace
           = (r, trace @ trace')"
      and g: "GRPOTrainer_init trainer \<in> set trace'"
    for r trace' trainer
  proof -
    from main_calls[OF m] obtain trainer' calls where
      t: "trace @ trace' = trace @ calls"
      and p: "prefix calls [Load_dataset dataset_name, Dataset_map, GRPOTrainer_init trainer', Train,
                         Save_model model_output_dir]"
      and f3: "3 \<le> length calls \<longrightarrow> select_reward_funcs reward_types = Inr (reward_funcs_arg trainer')"
      by blast
    from t g have "GRPOTrainer_init trainer \<in> set calls" by simp
    from init_in_calls[OF p this] f3
    have "select_reward_funcs reward_types = Inr (reward_funcs_arg trainer)" by simp
    with select_reward_funcs_known[OF k] show ?thesis by simp
  qed
  have new: "\<exists>r calls.
            main env compiled_model_path dataset_name model_output_dir reward_types training_args trace
              = (r, trace @ calls) \<and>
            take 3 calls =
              [Load_dataset dataset_name, Dataset_map,
               GRPOTrainer_init
                 \<lparr>model_arg = compiled_model_path,
                  reward_funcs_arg =
                    map (\<lambda>t. if t = ''accuracy'' then Fn_accuracy_reward else Fn_format_reward)
                      reward_types,
                  train_dataset_arg = train, eval_dataset_arg = test\<rparr>]"
    if k: "set reward_types \<subseteq> {''accuracy'', ''format''}"
      and "load_dataset env dataset_name = Inr loaded"
      and "dataset_map make_conversation loaded = Inr dataset"
      and "map_of dataset ''train'' = Some train" and "map_of dataset ''test'' = Some test"
    for loaded dataset train test
    using main_builds_trainer[OF select_reward_funcs_known[OF k] that(2-5)] .
  have reg: "reward_funcs_registry ''accuracy'' = Some Fn_accuracy_reward"
    "reward_funcs_registry ''format'' = Some Fn_format_reward"
    by (simp_all add: reward_funcs_registry_def)
  show ?thesis
  proof (intro conjI impI allI)
    show "dom reward_funcs_registry = {''accuracy'', ''format''}" by (rule registry_dom)
    show "reward_funcs_registry ''accuracy'' = Some Fn_accuracy_reward" by (rule reg)
    show "reward_funcs_registry ''format'' = Some Fn_format_reward" by (rule reg)
    show "map_option (call_reward_func parse verify) \<circ> reward_funcs_registry =
     [''accuracy'' \<mapsto> accuracy_reward parse verify,
      ''format'' \<mapsto> (\<lambda>completions solution kwargs. format_reward completions (solution, kwargs))]"
      by (rule registry_functions)
  next
    assume "set reward_types \<subseteq> {''accuracy'', ''format''}"
    then show "select_reward_funcs reward_types =
        Inr (map (\<lambda>t. if t = ''accuracy'' then Fn_accuracy_reward else Fn_format_reward)
               reward_types)"
      by (rule select_reward_funcs_known)
  next
    fix r trace' trainer
    assume "set reward_types \<subseteq> {''accuracy'', ''format''}"
      and "main env compiled_model_path dataset_name model_output_dir reward_types training_args trace
           = (r, trace @ trace') \<and>
         GRPOTrainer_init trainer \<in> set trace'"
    then show "reward_funcs_arg trainer =
           map (\<lambda>t. if t = ''accuracy'' then Fn_accuracy_reward else Fn_format_reward)
             reward_types"
      using old by blast
  next
    fix loaded dataset train test
    assume "set reward_types \<subseteq> {''accuracy'', ''format''}"
      and "load_dataset env dataset_name = Inr loaded \<and>
         dataset_map make_conversation loaded = Inr dataset \<and>
         map_of dataset ''train'' = Some train \<and> map_of dataset ''test'' = Some test"
    then show "\<exists>r calls.
            main env compiled_model_path dataset_name model_output_dir reward_types training_args trace
              = (r, trace @ calls) \<and>
            take 3 calls =
              [Load_dataset dataset_name, Dataset_map,
               GRPOTrainer_init
                 \<lparr>model_arg = compiled_model_path,
                  reward_funcs_arg =
                    map (\<lambda>t. if t = ''accuracy'' then Fn_accuracy_reward else Fn_format_reward)
                      reward_types,
                  train_dataset_arg = train, eval_dataset_arg = test\<rparr>]"
      using new by blast
  qed
qed

theorem reward_funcs_selection_witness:
  "set [''format'', ''accuracy'', ''format''] \<subseteq> {''accuracy'', ''format''} \<and>
   select_reward_funcs [''format'', ''accuracy'', ''format''] =
     Inr [Fn_format_reward, Fn_accuracy_reward, Fn_format_reward] \<and>
   load_dataset sample_env ''AI-MO/NuminaMath-TIR'' = Inr sample_dataset \<and>
   (\<exists>r calls.
      main sample_env ''/home/ubuntu/models/traced_qwen'' ''AI-MO/NuminaMath-TIR''
        ''/home/ubuntu/models/grpo_qwen'' [''format'', ''accuracy'', ''format''] () [] = (r, calls) \<and>
      take 3 calls =
        [Load_dataset ''AI-MO/NuminaMath-TIR'', Dataset_map,
         GRPOTrainer_init
           (sample_trainer\<lparr>reward_funcs_arg :=
              [Fn_format_reward, Fn_accuracy_reward, Fn_format_reward]\<rparr>)]) \<and>
   map_option
     (\<lambda>f. call_reward_func sample_parse sample_verify f sample_answers sample_solution ()
            \<lparr>stdout = ''''\<rparr>)
     (reward_funcs_registry ''accuracy'') =
   Some (Inr [1, 1, 0], \<lparr>stdout = ''Failed to parse gold solution:  '' @ [newline]\<rparr>)"
proof -
  note t = reward_funcs_selection[of sample_parse sample_verify "[''format'', ''accuracy'', ''format'']"
      sample_env "''/home/ubuntu/models/traced_qwen''" "''AI-MO/NuminaMath-TIR''"
      "''/home/ubuntu/models/grpo_qwen''" "()" "[]"]
  have k: "set [''format'', ''accuracy'', ''format''] \<subseteq> {''accuracy'', ''format''}"
    by simp
  have ld: "load_dataset sample_env ''AI-MO/NuminaMath-TIR'' = Inr sample_dataset"
    by (simp add: sample_env_def)
  have mp: "dataset_map make_conversation sample_dataset =
     Inr [(''train'', train_dataset_arg sample_trainer), (''test'', eval_dataset_arg sample_trainer)]"
    by (simp add: sample_dataset_def sample_trainer_def dataset_map_def
      map_split_def map_row_def make_conversation_def prompt_of_def getitem_def)
  have sp: "map_of [(''train'', train_dataset_arg sample_trainer), (''test'', eval_dataset_arg sample_trainer)]
      ''train'' = Some (train_dataset_arg sample_trainer)"
    "map_of [(''train'', train_dataset_arg sample_trainer), (''test'', eval_dataset_arg sample_trainer)]
      ''test'' = Some (eval_dataset_arg sample_trainer)"
    by simp_all
  note tk = t[THEN conjunct2, THEN conjunct2, THEN conjunct2, THEN conjunct2, rule_format, OF k]
  from tk[THEN conjunct1] have sel: "select_reward_funcs [''format'', ''accuracy'', ''format''] =
     Inr [Fn_format_reward, Fn_accuracy_reward, Fn_format_reward]"
    by simp
  from tk[THEN conjunct2, THEN conjunct2] have "\<forall>loaded dataset train test.
         load_dataset sample_env ''AI-MO/NuminaMath-TIR'' = Inr loaded \<and>
         dataset_map make_conversation loaded = Inr dataset \<and>
         map_of dataset ''train'' = Some train \<and> map_of dataset ''test'' = Some test \<longrightarrow>
         (\<exists>r calls.
            main sample_env ''/home/ubuntu/models/traced_qwen'' ''AI-MO/NuminaMath-TIR''
              ''/home/ubuntu/models/grpo_qwen'' [''format'', ''accuracy'', ''format''] () []
              = (r, [] @ calls) \<and>
            take 3 calls =
              [Load_dataset ''AI-MO/NuminaMath-TIR'', Dataset_map,
               GRPOTrainer_init
                 \<lparr>model_arg = ''/home/ubuntu/models/traced_qwen'',
                  reward_funcs_arg =
                    map (\<lambda>t. if t = ''accuracy'' then Fn_accuracy_reward else Fn_format_reward)
                      [''format'', ''accuracy'', ''format''],
                  train_dataset_arg = train, eval_dataset_arg = test\<rparr>])"
    by simp
  from this[rule_format, of sample_dataset _ "train_dataset_arg sample_trainer"
      "eval_dataset_arg sample_trainer", OF conjI[OF ld conjI[OF mp conjI[OF sp]]]]
  have run: "\<exists>r calls.
      main sample_env ''/home/ubuntu/models/traced_qwen'' ''AI-MO/NuminaMath-TIR''
        ''/home/ubuntu/models/grpo_qwen'' [''format'', ''accuracy'', ''format''] () [] = (r, calls) \<and>
      take 3 calls =
        [Load_dataset ''AI-MO/NuminaMath-TIR'', Dataset_map,
         GRPOTrainer_init
           (sample_trainer\<lparr>reward_funcs_arg :=
              [Fn_format_reward, Fn_accuracy_reward, Fn_format_reward]\<rparr>)]"
    by (simp add: sample_trainer_def)
  have reg: "reward_funcs_registry ''accuracy'' = Some Fn_accuracy_reward"
    by (rule t[THEN conjunct2, THEN conjunct1])
  have fn: "map_option (call_reward_func sample_parse sample_verify ::
        reward_func \<Rightarrow> completion list \<Rightarrow> string list \<Rightarrow> unit \<Rightarrow> world \<Rightarrow> (error + real list) \<times> world)
        \<circ> reward_funcs_registry =
     [''accuracy'' \<mapsto> accuracy_reward sample_parse sample_verify,
      ''format'' \<mapsto> (\<lambda>completions solution kwargs. format_reward completions (solution, kwargs))]"
    by (rule t[THEN conjunct2, THEN conjunct2, THEN conjunct2, THEN conjunct1])
  from fun_cong[OF fn, of "''accuracy''"] reg
  have "(call_reward_func sample_parse sample_verify Fn_accuracy_reward ::
        completion list \<Rightarrow> string list \<Rightarrow> unit \<Rightarrow> world \<Rightarrow> (error + real list) \<times> world) =
      accuracy_reward sample_parse sample_verify"
    by simp
  with reg sample_run have call: "map_option
     (\<lambda>f. call_reward_func sample_parse sample_verify f sample_answers sample_solution ()
            \<lparr>stdout = ''''\<rparr>)
     (reward_funcs_registry ''accuracy'') =
   Some (Inr [1, 1, 0], \<lparr>stdout = ''Failed to parse gold solution:  '' @ [newline]\<rparr>)"
    by simp
  show ?thesis
    by (intro conjI k sel ld run call)
qed

end
